theory Spec2Isabelle
  imports Main "HOL-Library.Sublist"
begin

section \<open>JavaScript strings\<close>

text \<open>
  A JavaScript string is modelled as a \<^typ>\<open>string\<close>: text in the ASCII range is one
  character per element, text beyond it is carried as its UTF-8 bytes. \<open>toLowerCase\<close>,
  \<open>trim\<close> and the regular expression class \<open>\s\<close> are modelled on the ASCII range:
  the letters \<open>A\<close> to \<open>Z\<close> are lowered, and the white space characters are tab, line feed,
  vertical tab, form feed, carriage return and space. Bytes beyond ASCII are neither changed
  nor white space.
\<close>

definition is_space :: "char \<Rightarrow> bool" where
  "is_space c = (of_char c \<in> {9, 10, 11, 12, 13, 32 :: nat})"

definition lower_char :: "char \<Rightarrow> char" where
  "lower_char c =
     (let n = of_char c :: nat in if 65 \<le> n \<and> n \<le> 90 then char_of (n + 32) else c)"

text \<open>\<open>String.prototype.toLowerCase\<close>.\<close>

definition toLowerCase :: "string \<Rightarrow> string" where
  "toLowerCase s = map lower_char s"

text \<open>\<open>String.prototype.trim\<close>: white space is removed at both ends.\<close>

definition trimStart :: "string \<Rightarrow> string" where
  "trimStart s = dropWhile is_space s"

definition trimEnd :: "string \<Rightarrow> string" where
  "trimEnd s = rev (dropWhile is_space (rev s))"

definition trim :: "string \<Rightarrow> string" where
  "trim s = trimEnd (trimStart s)"

text \<open>
  \<open>String.prototype.includes\<close>: \<open>starts_with s t\<close> says that \<open>t\<close> occurs in \<open>s\<close> at
  position 0, and \<open>js_includes s t\<close> tries every position from the left.
\<close>

fun starts_with :: "string \<Rightarrow> string \<Rightarrow> bool" where
  "starts_with s [] = True"
| "starts_with [] (c # t) = False"
| "starts_with (x # s) (c # t) = (x = c \<and> starts_with s t)"

fun js_includes :: "string \<Rightarrow> string \<Rightarrow> bool" where
  "js_includes [] t = (t = [])"
| "js_includes (x # s) t = (starts_with (x # s) t \<or> js_includes s t)"

text \<open>
  \<open>Array.prototype.join\<close> on an array of strings: the elements separated by \<open>sep\<close>, and
  the empty string for the empty array.
\<close>

fun join :: "string \<Rightarrow> string list \<Rightarrow> string" where
  "join sep [] = []"
| "join sep [p] = p"
| "join sep (p # q # ps) = p @ sep @ join sep (q # ps)"

text \<open>
  \<open>s.split(/\s+/)\<close>: the pieces of \<open>s\<close> between its maximal runs of white space. The
  result is never empty: the empty string gives one empty piece, and white space at an end
  of the string gives an empty piece at that end.
\<close>

function split_ws :: "string \<Rightarrow> string list" where
  "split_ws [] = [[]]"
| "split_ws (c # cs) =
     (if is_space c then [] # split_ws (dropWhile is_space cs)
      else (case split_ws cs of [] \<Rightarrow> [[c]] | p # ps \<Rightarrow> (c # p) # ps))"
  by pat_completeness auto
termination
  by (relation "measure length") (auto simp: length_dropWhile_le less_Suc_eq_le)


text \<open>
  Truthiness of a string, and of a field that may be missing (\<open>undefined\<close>): \<open>Boolean(x)\<close>,
  \<open>x || d\<close> and \<open>x ? a : b\<close> take the empty string and \<open>undefined\<close> as false.
\<close>

definition truthy :: "string option \<Rightarrow> bool" where
  "truthy x = (case x of None \<Rightarrow> False | Some s \<Rightarrow> s \<noteq> [])"

text \<open>\<open>x || d\<close> for a string field \<open>x\<close> and a default string \<open>d\<close>.\<close>

definition or_else :: "string option \<Rightarrow> string \<Rightarrow> string" where
  "or_else x d = (case x of None \<Rightarrow> d | Some s \<Rightarrow> if s = [] then d else s)"

text \<open>A field interpolated in a template literal: \<open>undefined\<close> prints as that word.\<close>

definition interp :: "string option \<Rightarrow> string" where
  "interp x = (case x of None \<Rightarrow> ''undefined'' | Some s \<Rightarrow> s)"

section \<open>Values of a JSON request body\<close>

datatype jsval =
    JUndefined
  | JNull
  | JBool bool
  | JNum int
  | JStr string
  | JArr "jsval list"
  | JObj "(string \<times> jsval) list"

text \<open>
  \<open>JUndefined\<close> is a property the body does not have. A number is kept as an integer: the
  handler only asks whether it is zero. Arrays and objects are always true.
\<close>

fun js_truthy :: "jsval \<Rightarrow> bool" where
  "js_truthy JUndefined = False"
| "js_truthy JNull = False"
| "js_truthy (JBool b) = b"
| "js_truthy (JNum n) = (n \<noteq> 0)"
| "js_truthy (JStr s) = (s \<noteq> [])"
| "js_truthy (JArr xs) = True"
| "js_truthy (JObj kvs) = True"

datatype js_error = TypeError

text \<open>
  \<open>(v || '').toLowerCase()\<close> and \<open>v.trim()\<close> on a value of the body: only a string has the
  method, and calling it on a true value of another type throws a \<open>TypeError\<close> (a value
  parsed from JSON never holds a function).
\<close>

fun or_empty_toLowerCase :: "jsval \<Rightarrow> js_error + string" where
  "or_empty_toLowerCase (JStr s) = Inr (toLowerCase s)"
| "or_empty_toLowerCase v = (if js_truthy v then Inl TypeError else Inr [])"


section \<open>The directory and the keyword retriever (server/index.js)\<close>

text \<open>
  A record of \<open>data/towns.json\<close>. A field is a string (\<open>area\<close> an array of strings), as
  the ingestion writes it, or it is missing from the JSON object, which JavaScript reads as
  \<open>undefined\<close>: \<open>None\<close> here.
\<close>

record ServiceRecord =
  town :: "string option"
  category :: "string option"
  name :: "string option"
  address :: "string option"
  phone :: "string option"
  hours :: "string option"
  area :: "string list option"
  url :: "string option"
  "notes" :: "string option"

record ScoredRecord =
  item :: ServiceRecord
  score :: int

text \<open>\<open>[d.town, d.category, d.name, d.address, d.notes].filter(Boolean).join(' ').toLowerCase()\<close>\<close>

definition hay :: "ServiceRecord \<Rightarrow> string" where
  "hay d =
     toLowerCase (join '' ''
       (map interp (filter truthy [town d, category d, name d, address d, notes d])))"

text \<open>\<open>!tp || (d.town || '').toLowerCase().includes(tp)\<close>\<close>

definition townOk :: "string \<Rightarrow> ServiceRecord \<Rightarrow> bool" where
  "townOk tp d = (tp = [] \<or> js_includes (toLowerCase (or_else (town d) [])) tp)"

text \<open>\<open>let score = 0; for (const t of tokens) if (hay.includes(t)) score++;\<close>\<close>

fun count_tokens :: "string \<Rightarrow> string list \<Rightarrow> int \<Rightarrow> int" where
  "count_tokens h [] sc = sc"
| "count_tokens h (t # ts) sc = count_tokens h ts (if js_includes h t then sc + 1 else sc)"

text \<open>
  The loop over \<open>data\<close>, with the array \<open>scored\<close> as accumulator: a record the town filter
  rejects is skipped, and a record is pushed only with a positive score.
\<close>

fun score_loop :: "string list \<Rightarrow> string \<Rightarrow> ServiceRecord list \<Rightarrow> ScoredRecord list
    \<Rightarrow> ScoredRecord list" where
  "score_loop tokens tp [] scored = scored"
| "score_loop tokens tp (d # ds) scored =
     (if \<not> townOk tp d then score_loop tokens tp ds scored
      else let sc = count_tokens (hay d) tokens 0
           in score_loop tokens tp ds (if sc > 0 then scored @ [\<lparr>item = d, score = sc\<rparr>] else scored))"

text \<open>
  \<open>scored.sort((a, b) => b.score - a.score)\<close>. \<open>Array.prototype.sort\<close> is stable, and the
  comparator is a consistent order, so the result is the one list that is ordered by the
  comparator and keeps the elements that compare equal in their order; insertion from the
  right computes it.
\<close>

definition cmp_score :: "ScoredRecord \<Rightarrow> ScoredRecord \<Rightarrow> int" where
  "cmp_score a b = score b - score a"

fun insert_by :: "('a \<Rightarrow> 'a \<Rightarrow> int) \<Rightarrow> 'a \<Rightarrow> 'a list \<Rightarrow> 'a list" where
  "insert_by cmp x [] = [x]"
| "insert_by cmp x (y # ys) = (if cmp x y \<le> 0 then x # y # ys else y # insert_by cmp x ys)"

definition js_sort :: "('a \<Rightarrow> 'a \<Rightarrow> int) \<Rightarrow> 'a list \<Rightarrow> 'a list" where
  "js_sort cmp xs = foldr (insert_by cmp) xs []"

text \<open>\<open>.split(/\s+/).filter(Boolean)\<close> on the lowered question.\<close>

definition tokens_of :: "string \<Rightarrow> string list" where
  "tokens_of q = filter (\<lambda>t. t \<noteq> []) (split_ws q)"

definition keywordRetrieve :: "ServiceRecord list \<Rightarrow> jsval \<Rightarrow> jsval
    \<Rightarrow> js_error + ScoredRecord list" where
  "keywordRetrieve data question townPref =
     (case or_empty_toLowerCase question of
        Inl e \<Rightarrow> Inl e
      | Inr q \<Rightarrow>
          let tokens = tokens_of q in
          (case or_empty_toLowerCase townPref of
             Inl e \<Rightarrow> Inl e
           | Inr tp \<Rightarrow>
               let scored = score_loop tokens tp data [] in
               if scored = [] then
                 Inr (map (\<lambda>it. \<lparr>item = it, score = 1\<rparr>) (take 2 (filter (townOk tp) data)))
               else Inr (take 2 (js_sort cmp_score scored))))"


section \<open>The tokens as the specification words them\<close>



section \<open>The deterministic paragraph (writeFallbackParagraph)\<close>

text \<open>
  The handler reaches \<open>writeFallbackParagraph\<close> and \<open>buildPrompt\<close> with a string for
  \<open>question\<close> and with a string or a false value for \<open>townPref\<close>; both functions only test
  \<open>townPref\<close> for truth and print it, so a false value is passed as the empty string.
  The apostrophe of the first sentence is U+2019, three bytes in UTF-8.
\<close>

definition apostrophe :: string where
  "apostrophe = [CHR 0xE2, CHR 0x80, CHR 0x99]"

definition writeFallbackParagraph :: "ScoredRecord list \<Rightarrow> string \<Rightarrow> string \<Rightarrow> string" where
  "writeFallbackParagraph scored question townPref =
     (case scored of
        [] \<Rightarrow>
          ''I couldn'' @ apostrophe @ ''t find a match''
          @ (if townPref \<noteq> [] then '' in '' @ townPref else [])
          @ ''. Please try a different town or category, or use the links in the sources below.''
      | s # rest \<Rightarrow>
          let it = item s;
              parts = [interp (name it) @ '' serves '' @ interp (town it) @ ''.''];
              parts = (if truthy (notes it) then parts @ [interp (notes it)] else parts);
              parts = (if truthy (hours it) then parts @ [''Hours: '' @ interp (hours it) @ ''.''] else parts);
              parts = (if truthy (address it) then parts @ [''Address: '' @ interp (address it) @ ''.''] else parts);
              parts = parts @ [''Phone: '' @ or_else (phone it) ''N/A'' @ ''.''];
              parts = (if truthy (url it) then parts @ [''More info: '' @ interp (url it)] else parts)
          in join '' '' parts)"

section \<open>The prompt (buildPrompt)\<close>

definition nl :: char where
  "nl = CHR 0x0A"

text \<open>The em dash U+2014 and the en dash U+2013 of the source text, in UTF-8.\<close>

definition em_dash :: string where
  "em_dash = [CHR 0xE2, CHR 0x80, CHR 0x94]"

definition en_dash :: string where
  "en_dash = [CHR 0xE2, CHR 0x80, CHR 0x93]"

definition guardrails :: string where
  "guardrails = trim
     ([nl] @ ''You are a warm, calm assistant for seniors and caregivers.''
      @ [nl] @ ''Be very kind, simple, and concise '' @ em_dash @ '' reply with 2'' @ en_dash
             @ ''4 short sentences in plain language.''
      @ [nl] @ ''Only use phone numbers, addresses, hours, and links that appear in the ''
             @ [CHR 0x22] @ ''Local Directory'' @ [CHR 0x22] @ '' below.''
      @ [nl] @ ''If a detail is missing, say you don'' @ [CHR 0x27]
             @ ''t have it and suggest visiting the provided link.''
      @ [nl] @ ''Do not ask to open websites. If the user states an emergency, advise calling 911.''
      @ [nl] @ ''  '')"

text \<open>The line of one scored record, the body of \<open>scored.map(s => ...)\<close>.\<close>

definition contextLine :: "ScoredRecord \<Rightarrow> string" where
  "contextLine s =
     (let it = item s in
      ''- ['' @ interp (category it) @ ''] '' @ or_else (name it) ''(name not provided)''
      @ '' '' @ em_dash @ '' Phone: '' @ or_else (phone it) ''N/A'' @ ''; ''
      @ (if truthy (address it) then ''Address: '' @ interp (address it) @ ''; '' else [])
      @ ''Hours: '' @ or_else (hours it) ''N/A'' @ ''; Area: ''
      @ join '', '' (case area it of None \<Rightarrow> [] | Some a \<Rightarrow> a) @ ''; ''
      @ (if truthy (url it) then ''Link: '' @ interp (url it) @ ''; '' else [])
      @ (if truthy (notes it) then ''Notes: '' @ interp (notes it) else []))"

definition contextLines :: "ScoredRecord list \<Rightarrow> string" where
  "contextLines scored = join [nl] (map contextLine scored)"

text \<open>\<open>contextLines || '(no matches)'\<close>, the text under the heading \<open>Local Directory:\<close>.\<close>

definition directory_section :: "ScoredRecord list \<Rightarrow> string" where
  "directory_section scored =
     (if contextLines scored \<noteq> [] then contextLines scored else ''(no matches)'')"

definition buildPrompt :: "string \<Rightarrow> string \<Rightarrow> ScoredRecord list \<Rightarrow> string" where
  "buildPrompt question townPref scored = trim
     ([nl] @ guardrails
      @ [nl, nl] @ ''User question: '' @ [CHR 0x22, CHR 0x22, CHR 0x22] @ question
             @ [CHR 0x22, CHR 0x22, CHR 0x22]
      @ [nl] @ (if townPref \<noteq> [] then ''Preferred town: '' @ townPref else [])
      @ [nl, nl] @ ''Local Directory:''
      @ [nl] @ directory_section scored
      @ [nl] @ ''Write a short **paragraph** (not a list). Mention up to 2 relevant services. Avoid repeating the exact same phrasing each time.''
      @ [nl])"

section \<open>The generator with its retry (generateWithRetry)\<close>










section \<open>The route POST /api/ask\<close>







section \<open>The ingestion filter (scripts/csv-to-json.mjs)\<close>





section \<open>Sample data\<close>

text \<open>The record of Scenario 1 of the specification, and a small directory around it.\<close>

definition linden_meals :: ServiceRecord where
  "linden_meals =
     \<lparr>town = Some ''Linden'', category = Some ''Meals'', name = Some ''Senior Meals Co'',
      address = None, phone = Some ''555-1111'', hours = None, area = None,
      url = Some ''http://x'', notes = None\<rparr>"

definition linden_rides :: ServiceRecord where
  "linden_rides =
     \<lparr>town = Some ''Linden'', category = Some ''Transport'', name = Some ''Linden Rides'',
      address = Some ''2 Elm St'', phone = Some [], hours = Some ''9-5'',
      area = Some [''Linden'', ''Rahway''], url = Some ''http://r'', notes = Some ''Call ahead''\<rparr>"

definition rahway_meals :: ServiceRecord where
  "rahway_meals =
     \<lparr>town = Some ''Rahway'', category = Some ''Meals'', name = Some [],
      address = Some [], phone = Some ''555-2222'', hours = Some ''8-4'', area = Some [],
      url = Some ''http://m'', notes = Some []\<rparr>"









section \<open>Substrings, the score and the sort\<close>

lemma starts_with_prefix: "starts_with s t \<longleftrightarrow> prefix t s"
  by (induction s t rule: starts_with.induct) auto

lemma js_includes_sublist: "js_includes s t \<longleftrightarrow> (\<exists>u v. s = u @ t @ v)"
proof (induction s)
  case Nil
  then show ?case by auto
next
  case (Cons x s)
  show ?case
  proof
    assume "js_includes (x # s) t"
    then consider "prefix t (x # s)" | "js_includes s t"
      by (auto simp: starts_with_prefix)
    then show "\<exists>u v. x # s = u @ t @ v"
    proof cases
      case 1
      then obtain v where "x # s = t @ v" by (auto simp: prefix_def)
      then have "x # s = [] @ t @ v" by simp
      then show ?thesis by blast
    next
      case 2
      then obtain u v where "s = u @ t @ v" using Cons.IH by blast
      then have "x # s = (x # u) @ t @ v" by simp
      then show ?thesis by blast
    qed
  next
    assume "\<exists>u v. x # s = u @ t @ v"
    then obtain u v where uv: "x # s = u @ t @ v" by blast
    show "js_includes (x # s) t"
    proof (cases u)
      case Nil
      then have "prefix t (x # s)" using uv by (simp add: prefix_def)
      then show ?thesis by (simp add: starts_with_prefix)
    next
      case (Cons y u')
      then have "s = u' @ t @ v" using uv by simp
      then have "js_includes s t" using Cons.IH by blast
      then show ?thesis by simp
    qed
  qed
qed


lemma score_loop_acc: "score_loop tokens tp ds acc = acc @ score_loop tokens tp ds []"
proof (induction ds arbitrary: acc)
  case Nil
  then show ?case by simp
next
  case (Cons d ds)
  show ?case
    using Cons.IH [of "acc @ [\<lparr>item = d, score = count_tokens (hay d) tokens 0\<rparr>]"]
      Cons.IH [of "[\<lparr>item = d, score = count_tokens (hay d) tokens 0\<rparr>]"] Cons.IH [of acc]
    by (simp add: Let_def)
qed

lemma score_loop_closed:
  "score_loop tokens tp ds [] =
     map (\<lambda>d. \<lparr>item = d, score = count_tokens (hay d) tokens 0\<rparr>)
       (filter (\<lambda>d. townOk tp d \<and> 0 < count_tokens (hay d) tokens 0) ds)"
proof (induction ds)
  case Nil
  then show ?case by simp
next
  case (Cons d ds)
  show ?case
    using Cons.IH score_loop_acc [of tokens tp ds "[\<lparr>item = d, score = count_tokens (hay d) tokens 0\<rparr>]"]
    by (simp add: Let_def)
qed

lemma score_loop_positive: "s \<in> set (score_loop tokens tp ds []) \<Longrightarrow> 1 \<le> score s"
  by (auto simp: score_loop_closed)


lemma set_insert_by: "set (insert_by cmp x ys) = insert x (set ys)"
  by (induction ys) auto


lemma set_js_sort: "set (js_sort cmp xs) = set xs"
  by (induction xs) (auto simp: js_sort_def set_insert_by)








section \<open>The retriever: scores, ranking and the fallback\<close>

lemma keywordRetrieve_Inr:
  assumes "keywordRetrieve data question townPref = Inr r"
  obtains q tp where
    "score_loop (tokens_of q) tp data [] = []"
    "r = map (\<lambda>it. \<lparr>item = it, score = 1\<rparr>) (take 2 (filter (townOk tp) data))"
  | q tp where
    "score_loop (tokens_of q) tp data [] \<noteq> []"
    "r = take 2 (js_sort cmp_score (score_loop (tokens_of q) tp data []))"
  using assms
  by (auto simp: keywordRetrieve_def Let_def split: sum.splits if_splits)

text \<open>
  C9. Every scored record that \<open>keywordRetrieve\<close> returns has a score of at least 1: the
  loop pushes a record only with a positive score, and the fallback gives the score 1.
  This holds for every directory and for every value of \<open>question\<close> and \<open>townPref\<close> on
  which the function returns.
\<close>

theorem retrieve_score_at_least_one:
  "keywordRetrieve data question townPref = Inr r \<Longrightarrow> s \<in> set r \<Longrightarrow> 1 \<le> score s"
proof -
  assume ret: "keywordRetrieve data question townPref = Inr r" and mem: "s \<in> set r"
  from ret show ?thesis
  proof (cases rule: keywordRetrieve_Inr)
    case (1 q tp)
    with mem show ?thesis by auto
  next
    case (2 q tp)
    with mem have "s \<in> set (js_sort cmp_score (score_loop (tokens_of q) tp data []))"
      by (auto dest: in_set_takeD)
    then have "s \<in> set (score_loop (tokens_of q) tp data [])"
      by (simp add: set_js_sort)
    then show ?thesis by (rule score_loop_positive)
  qed
qed

theorem retrieve_score_at_least_one_witness:
  "keywordRetrieve [linden_meals] (JStr ''meals in Linden'') (JStr ''Linden'')
     = Inr [\<lparr>item = linden_meals, score = 3\<rparr>]
   \<and> \<lparr>item = linden_meals, score = 3\<rparr> \<in> set [\<lparr>item = linden_meals, score = 3\<rparr>]
   \<and> 1 \<le> score \<lparr>item = linden_meals, score = 3\<rparr>"
proof -
  have h: "keywordRetrieve [linden_meals] (JStr ''meals in Linden'') (JStr ''Linden'')
     = Inr [\<lparr>item = linden_meals, score = 3\<rparr>]"
    by code_simp
  have m: "\<lparr>item = linden_meals, score = 3\<rparr> \<in> set [\<lparr>item = linden_meals, score = 3\<rparr>]"
    by simp
  from retrieve_score_at_least_one [OF h m] h m show ?thesis by blast
qed








section \<open>The tokens and the score\<close>














section \<open>The deterministic paragraph\<close>

lemma join_sublist: "p \<in> set ps \<Longrightarrow> \<exists>u v. join sep ps = u @ p @ v"
proof (induction sep ps rule: join.induct)
  case (1 sep)
  then show ?case by simp
next
  case (2 sep p')
  then have "join sep [p'] = [] @ p @ []" by simp
  then show ?case by blast
next
  case (3 sep a b ps)
  show ?case
  proof (cases "p = a")
    case True
    then have "join sep (a # b # ps) = [] @ p @ (sep @ join sep (b # ps))" by simp
    then show ?thesis by blast
  next
    case False
    with 3 obtain u v where "join sep (b # ps) = u @ p @ v" by auto
    then have "join sep (a # b # ps) = (a @ sep @ u) @ p @ v" by simp
    then show ?thesis by blast
  qed
qed

lemma writeFallbackParagraph_parts:
  "writeFallbackParagraph (s # rest) q tp =
     join '' ''
       ([interp (name (item s)) @ '' serves '' @ interp (town (item s)) @ ''.'']
        @ (if truthy (notes (item s)) then [interp (notes (item s))] else [])
        @ (if truthy (hours (item s)) then [''Hours: '' @ interp (hours (item s)) @ ''.''] else [])
        @ (if truthy (address (item s)) then [''Address: '' @ interp (address (item s)) @ ''.''] else [])
        @ [''Phone: '' @ or_else (phone (item s)) ''N/A'' @ ''.'']
        @ (if truthy (url (item s)) then [''More info: '' @ interp (url (item s))] else []))"
  by (simp add: writeFallbackParagraph_def Let_def)

text \<open>
  C6. \<open>writeFallbackParagraph\<close> is a function of its arguments. On the empty list it
  returns the apology, which contains the text of the town filter when there is one. On a
  list that is not empty it depends on the first record only, and its text is, joined by
  single spaces and in this order: the sentence of name and town, the notes if present,
  the hours if present, the address if present, the phone clause in every case, with
  \<open>N/A\<close> for a phone that is missing or empty, and the link if present.
\<close>

theorem fallback_paragraph_shape:
  "writeFallbackParagraph [] q tp =
     ''I couldn'' @ apostrophe @ ''t find a match'' @ (if tp = [] then [] else '' in '' @ tp)
     @ ''. Please try a different town or category, or use the links in the sources below.''
   \<and> (tp \<noteq> [] \<longrightarrow> js_includes (writeFallbackParagraph [] q tp) tp)
   \<and> writeFallbackParagraph (s # rest) q tp = writeFallbackParagraph [s] q' tp'
   \<and> writeFallbackParagraph (s # rest) q tp =
       join '' ''
         ([interp (name (item s)) @ '' serves '' @ interp (town (item s)) @ ''.'']
          @ (if truthy (notes (item s)) then [interp (notes (item s))] else [])
          @ (if truthy (hours (item s)) then [''Hours: '' @ interp (hours (item s)) @ ''.''] else [])
          @ (if truthy (address (item s)) then [''Address: '' @ interp (address (item s)) @ ''.''] else [])
          @ [''Phone: '' @ or_else (phone (item s)) ''N/A'' @ ''.'']
          @ (if truthy (url (item s)) then [''More info: '' @ interp (url (item s))] else []))
   \<and> js_includes (writeFallbackParagraph (s # rest) q tp)
         (''Phone: '' @ or_else (phone (item s)) ''N/A'' @ ''.'')
   \<and> (\<not> truthy (phone (item s)) \<longrightarrow>
         js_includes (writeFallbackParagraph (s # rest) q tp) ''Phone: N/A.'')"
proof -
  let ?apology = "''I couldn'' @ apostrophe @ ''t find a match'' @ (if tp = [] then [] else '' in '' @ tp)
     @ ''. Please try a different town or category, or use the links in the sources below.''"
  have a: "writeFallbackParagraph [] q tp = ?apology"
    by (simp add: writeFallbackParagraph_def)
  have b: "js_includes (writeFallbackParagraph [] q tp) tp" if "tp \<noteq> []"
  proof -
    have "writeFallbackParagraph [] q tp =
        (''I couldn'' @ apostrophe @ ''t find a match in '') @ tp
        @ ''. Please try a different town or category, or use the links in the sources below.''"
      using that by (simp add: writeFallbackParagraph_def)
    then show ?thesis unfolding js_includes_sublist by blast
  qed
  have c: "writeFallbackParagraph (s # rest) q tp = writeFallbackParagraph [s] q' tp'"
    by (simp add: writeFallbackParagraph_def)
  let ?clause = "''Phone: '' @ or_else (phone (item s)) ''N/A'' @ ''.''"
  have e: "js_includes (writeFallbackParagraph (s # rest) q tp) ?clause"
    unfolding js_includes_sublist writeFallbackParagraph_parts
    by (rule join_sublist) simp
  have f: "\<not> truthy (phone (item s)) \<longrightarrow>
         js_includes (writeFallbackParagraph (s # rest) q tp) ''Phone: N/A.''"
  proof
    assume "\<not> truthy (phone (item s))"
    then have "or_else (phone (item s)) ''N/A'' = ''N/A''"
      by (simp add: truthy_def or_else_def split: option.splits)
    then have "?clause = ''Phone: N/A.''" by simp
    with e show "js_includes (writeFallbackParagraph (s # rest) q tp) ''Phone: N/A.''"
      by metis
  qed
  from a b c e f show ?thesis
    using writeFallbackParagraph_parts [of s rest q tp] by blast
qed

theorem fallback_paragraph_shape_witness:
  "''Linden'' \<noteq> []
   \<and> js_includes (writeFallbackParagraph [] ''rides'' ''Linden'') ''Linden''
   \<and> \<not> truthy (phone (item \<lparr>item = linden_rides, score = 1\<rparr>))
   \<and> js_includes
        (writeFallbackParagraph [\<lparr>item = linden_rides, score = 1\<rparr>, \<lparr>item = rahway_meals, score = 1\<rparr>]
           ''rides'' ''Linden'')
        ''Phone: N/A.''
   \<and> writeFallbackParagraph [\<lparr>item = linden_rides, score = 1\<rparr>, \<lparr>item = rahway_meals, score = 1\<rparr>]
        ''rides'' ''Linden''
       = ''Linden Rides serves Linden. Call ahead Hours: 9-5. Address: 2 Elm St. Phone: N/A. More info: http://r''"
proof -
  have h1: "''Linden'' \<noteq> []" by simp
  have h2: "\<not> truthy (phone (item \<lparr>item = linden_rides, score = 1\<rparr>))"
    by code_simp
  have v: "writeFallbackParagraph [\<lparr>item = linden_rides, score = 1\<rparr>, \<lparr>item = rahway_meals, score = 1\<rparr>]
        ''rides'' ''Linden''
       = ''Linden Rides serves Linden. Call ahead Hours: 9-5. Address: 2 Elm St. Phone: N/A. More info: http://r''"
    by code_simp
  from fallback_paragraph_shape [of "''rides''" "''Linden''" "\<lparr>item = linden_rides, score = 1\<rparr>"
      "[\<lparr>item = rahway_meals, score = 1\<rparr>]"] h1 h2 v
  show ?thesis by blast
qed

section \<open>The prompt\<close>

lemma or_else_if: "or_else x d = (if truthy x then interp x else d)"
  by (simp add: or_else_def truthy_def interp_def split: option.splits)

lemma is_space_nl: "is_space nl"
  by (simp add: is_space_def nl_def)

lemma trim_between_newlines:
  assumes "s \<noteq> []" and "\<not> is_space (hd s)" and "\<not> is_space (last s)"
  shows "trim ([nl] @ s @ [nl]) = s"
proof -
  from assms obtain x xs where s: "s = x # xs" and x: "\<not> is_space x"
    by (cases s) auto
  have "trimStart ([nl] @ s @ [nl]) = s @ [nl]"
    using x by (simp add: trimStart_def is_space_nl s)
  moreover have "trimEnd (s @ [nl]) = s"
  proof -
    from assms obtain y ys where r: "rev s = y # ys" and y: "\<not> is_space y"
      by (cases "rev s") (auto simp: last_rev [symmetric] simp del: last_rev)
    have "dropWhile is_space (rev (s @ [nl])) = rev s"
      using y by (simp add: is_space_nl r)
    then show ?thesis by (simp add: trimEnd_def)
  qed
  ultimately show ?thesis by (simp add: trim_def)
qed

lemma guardrails_text:
  "guardrails =
     ''You are a warm, calm assistant for seniors and caregivers.''
      @ [nl] @ ''Be very kind, simple, and concise '' @ em_dash @ '' reply with 2'' @ en_dash
             @ ''4 short sentences in plain language.''
      @ [nl] @ ''Only use phone numbers, addresses, hours, and links that appear in the ''
             @ [CHR 0x22] @ ''Local Directory'' @ [CHR 0x22] @ '' below.''
      @ [nl] @ ''If a detail is missing, say you don'' @ [CHR 0x27]
             @ ''t have it and suggest visiting the provided link.''
      @ [nl] @ ''Do not ask to open websites. If the user states an emergency, advise calling 911.''"
  by code_simp

lemma guardrails_hd: "guardrails \<noteq> [] \<and> \<not> is_space (hd guardrails)"
  unfolding guardrails_text by (simp add: is_space_def)

lemma join_Cons_not_Nil: "p \<noteq> [] \<Longrightarrow> join sep (p # ps) \<noteq> []"
  by (cases ps) auto

lemma contextLines_not_Nil: "scored \<noteq> [] \<Longrightarrow> contextLines scored \<noteq> []"
proof -
  assume "scored \<noteq> []"
  then obtain s rest where "scored = s # rest" by (cases scored) auto
  moreover have "contextLine s \<noteq> []" by (simp add: contextLine_def Let_def)
  ultimately show ?thesis by (simp add: contextLines_def join_Cons_not_Nil)
qed

lemma buildPrompt_text:
  "buildPrompt q tp scored =
     guardrails
     @ [nl, nl] @ ''User question: '' @ [CHR 0x22, CHR 0x22, CHR 0x22] @ q
            @ [CHR 0x22, CHR 0x22, CHR 0x22]
     @ [nl] @ (if tp = [] then [] else ''Preferred town: '' @ tp)
     @ [nl, nl] @ ''Local Directory:''
     @ [nl] @ directory_section scored
     @ [nl] @ ''Write a short **paragraph** (not a list). Mention up to 2 relevant services. Avoid repeating the exact same phrasing each time.''"
  (is "_ = ?s")
proof -
  have hd: "?s \<noteq> [] \<and> \<not> is_space (hd ?s)"
    using guardrails_hd by simp
  have "last ?s = CHR ''.''" by simp
  then have "\<not> is_space (last ?s)" by (simp add: is_space_def)
  with hd have "trim ([nl] @ ?s @ [nl]) = ?s"
    using trim_between_newlines [of ?s] by blast
  moreover have "buildPrompt q tp scored = trim ([nl] @ ?s @ [nl])"
    by (simp add: buildPrompt_def)
  ultimately show ?thesis by simp
qed

text \<open>
  C7, as the code has it. The line of a record shows the category in brackets and then
  the name, with \<open>(name not provided)\<close> for a name that is missing or empty; the phone and
  the hours, each with \<open>N/A\<close> when missing or empty; the area list joined by commas, under
  its label also when the list is empty; and the address, the link and the notes only when
  they are present and not empty. The lines are joined by line feeds. With no scored record
  the directory section is the marker \<open>(no matches)\<close>, otherwise it is the lines, and the
  prompt holds the section under the heading \<open>Local Directory:\<close>.
\<close>

theorem prompt_directory_lines:
  "contextLine s =
     ''- ['' @ interp (category (item s)) @ ''] ''
     @ (if truthy (name (item s)) then interp (name (item s)) else ''(name not provided)'')
     @ '' '' @ em_dash @ '' Phone: ''
     @ (if truthy (phone (item s)) then interp (phone (item s)) else ''N/A'') @ ''; ''
     @ (if truthy (address (item s)) then ''Address: '' @ interp (address (item s)) @ ''; '' else [])
     @ ''Hours: '' @ (if truthy (hours (item s)) then interp (hours (item s)) else ''N/A'')
     @ ''; Area: '' @ join '', '' (case area (item s) of None \<Rightarrow> [] | Some a \<Rightarrow> a) @ ''; ''
     @ (if truthy (url (item s)) then ''Link: '' @ interp (url (item s)) @ ''; '' else [])
     @ (if truthy (notes (item s)) then ''Notes: '' @ interp (notes (item s)) else [])
   \<and> directory_section [] = ''(no matches)''
   \<and> (scored \<noteq> [] \<longrightarrow> directory_section scored = join [nl] (map contextLine scored))
   \<and> buildPrompt q tp scored =
       guardrails
       @ [nl, nl] @ ''User question: '' @ [CHR 0x22, CHR 0x22, CHR 0x22] @ q
              @ [CHR 0x22, CHR 0x22, CHR 0x22]
       @ [nl] @ (if tp = [] then [] else ''Preferred town: '' @ tp)
       @ [nl, nl] @ ''Local Directory:''
       @ [nl] @ directory_section scored
       @ [nl] @ ''Write a short **paragraph** (not a list). Mention up to 2 relevant services. Avoid repeating the exact same phrasing each time.''"
proof -
  have a: "contextLine s =
     ''- ['' @ interp (category (item s)) @ ''] ''
     @ (if truthy (name (item s)) then interp (name (item s)) else ''(name not provided)'')
     @ '' '' @ em_dash @ '' Phone: ''
     @ (if truthy (phone (item s)) then interp (phone (item s)) else ''N/A'') @ ''; ''
     @ (if truthy (address (item s)) then ''Address: '' @ interp (address (item s)) @ ''; '' else [])
     @ ''Hours: '' @ (if truthy (hours (item s)) then interp (hours (item s)) else ''N/A'')
     @ ''; Area: '' @ join '', '' (case area (item s) of None \<Rightarrow> [] | Some a \<Rightarrow> a) @ ''; ''
     @ (if truthy (url (item s)) then ''Link: '' @ interp (url (item s)) @ ''; '' else [])
     @ (if truthy (notes (item s)) then ''Notes: '' @ interp (notes (item s)) else [])"
    by (simp add: contextLine_def Let_def or_else_if)
  have b: "directory_section [] = ''(no matches)''"
    by (simp add: directory_section_def contextLines_def)
  have c: "scored \<noteq> [] \<longrightarrow> directory_section scored = join [nl] (map contextLine scored)"
    using contextLines_not_Nil [of scored]
    by (simp add: directory_section_def) (simp add: contextLines_def)
  from a b c buildPrompt_text [of q tp scored] show ?thesis by blast
qed

theorem prompt_directory_lines_witness:
  "[\<lparr>item = linden_rides, score = 1\<rparr>, \<lparr>item = rahway_meals, score = 1\<rparr>] \<noteq> []
   \<and> directory_section [\<lparr>item = linden_rides, score = 1\<rparr>, \<lparr>item = rahway_meals, score = 1\<rparr>]
       = ''- [Transport] Linden Rides '' @ em_dash
         @ '' Phone: N/A; Address: 2 Elm St; Hours: 9-5; Area: Linden, Rahway; Link: http://r; Notes: Call ahead''
         @ [nl] @ ''- [Meals] (name not provided) '' @ em_dash
         @ '' Phone: 555-2222; Hours: 8-4; Area: ; Link: http://m; ''"
proof -
  have h: "[\<lparr>item = linden_rides, score = 1\<rparr>, \<lparr>item = rahway_meals, score = 1\<rparr>] \<noteq> []"
    by simp
  have v: "join [nl] (map contextLine [\<lparr>item = linden_rides, score = 1\<rparr>, \<lparr>item = rahway_meals, score = 1\<rparr>])
       = ''- [Transport] Linden Rides '' @ em_dash
         @ '' Phone: N/A; Address: 2 Elm St; Hours: 9-5; Area: Linden, Rahway; Link: http://r; Notes: Call ahead''
         @ [nl] @ ''- [Meals] (name not provided) '' @ em_dash
         @ '' Phone: 555-2222; Hours: 8-4; Area: ; Link: http://m; ''"
    by code_simp
  from prompt_directory_lines
    [of _ "[\<lparr>item = linden_rides, score = 1\<rparr>, \<lparr>item = rahway_meals, score = 1\<rparr>]"] h v
  show ?thesis by simp
qed

text \<open>
  The claim C7 as it is written fails on a record with an empty name: its line shows
  \<open>(name not provided)\<close> and holds no \<open>N/A\<close>, and the empty area list keeps its label.
\<close>

theorem prompt_name_default_counterexample:
  "name rahway_meals = Some []
   \<and> contextLine \<lparr>item = rahway_meals, score = 1\<rparr>
       = ''- [Meals] (name not provided) '' @ em_dash
         @ '' Phone: 555-2222; Hours: 8-4; Area: ; Link: http://m; ''
   \<and> \<not> js_includes (contextLine \<lparr>item = rahway_meals, score = 1\<rparr>) ''N/A''"
  by code_simp

section \<open>The ingestion filter\<close>
















section \<open>The generator\<close>












section \<open>The route POST /api/ask\<close>
















end
